theory Spec2Isabelle
  imports Complex_Main "HOL-Library.Multiset"
begin

section \<open>Errors and array values\<close>

text \<open>
  The Python exceptions that \<^verbatim>\<open>sklift/metrics/metrics.py\<close> can raise.  Every
  \<^verbatim>\<open>ValueError\<close> of \<^verbatim>\<open>uplift_at_k\<close> carries the place that raised it.
\<close>

datatype value_error =
    LengthMismatch
  | BadAverage
  | KRange
  | KKind
  | GroupCtrl
  | GroupTrmnt

datatype error = IndexError | ValueError value_error

text \<open>
  Array entries are modelled as exact reals: rounding is not part of the model.  The result of
  an arithmetic operation is an \<open>fval\<close>: \<open>Some r\<close> is the finite number \<open>r\<close>, and \<open>None\<close>
  stands for a non-finite result (NaN or an infinity), which numpy produces without raising
  when it divides by zero or averages an empty array, and which every later operation
  propagates.
\<close>

type_synonym fval = "real option"

definition fdiv :: "real \<Rightarrow> real \<Rightarrow> fval" where
  "fdiv a b = (if b = 0 then None else Some (a / b))"

fun fsub :: "fval \<Rightarrow> fval \<Rightarrow> fval" where
  "fsub (Some a) (Some b) = Some (a - b)"
| "fsub _ _ = None"

fun fmul :: "fval \<Rightarrow> fval \<Rightarrow> fval" where
  "fmul (Some a) (Some b) = Some (a * b)"
| "fmul _ _ = None"

text \<open>An exception raised by a step ends the computation: the later steps do not run.\<close>

definition bind_err :: "error + 'a \<Rightarrow> ('a \<Rightarrow> error + 'b) \<Rightarrow> error + 'b" where
  "bind_err r f = (case r of Inl e \<Rightarrow> Inl e | Inr v \<Rightarrow> f v)"

section \<open>The numpy and scikit-learn primitives used by the metrics\<close>

text \<open>\<^verbatim>\<open>np.argsort(a, kind="mergesort")\<close>: the indices of a stable ascending sort.\<close>

definition argsort_mergesort :: "real list \<Rightarrow> nat list" where
  "argsort_mergesort a = sort_key (\<lambda>i. a ! i) [0..<length a]"

text \<open>\<^verbatim>\<open>a[idx]\<close> for an array of non-negative indices: out of range raises.\<close>

definition np_take :: "'a list \<Rightarrow> nat list \<Rightarrow> error + 'a list" where
  "np_take a idx =
     (if list_all (\<lambda>i. i < length a) idx then Inr (map (\<lambda>i. a ! i) idx) else Inl IndexError)"

text \<open>
  \<^verbatim>\<open>a[idx]\<close> for an array of signed indices: a negative index counts from the end, and an
  index outside \<open>[-n, n)\<close> raises.
\<close>

definition index_ok :: "nat \<Rightarrow> int \<Rightarrow> bool" where
  "index_ok n i = (- int n \<le> i \<and> i < int n)"

definition index_pos :: "nat \<Rightarrow> int \<Rightarrow> nat" where
  "index_pos n i = (if i < 0 then nat (int n + i) else nat i)"

definition np_take_int :: "'a list \<Rightarrow> int list \<Rightarrow> error + 'a list" where
  "np_take_int a idx =
     (if list_all (index_ok (length a)) idx
      then Inr (map (\<lambda>i. a ! index_pos (length a) i) idx)
      else Inl IndexError)"

text \<open>\<^verbatim>\<open>np.diff(a)\<close>: the differences \<open>a[i+1] - a[i]\<close>.\<close>

definition np_diff :: "real list \<Rightarrow> real list" where
  "np_diff a = map (\<lambda>i. a ! Suc i - a ! i) [0..<length a - 1]"

text \<open>\<^verbatim>\<open>np.where(a)[0]\<close>: the positions of the nonzero entries.\<close>

definition np_where :: "real list \<Rightarrow> nat list" where
  "np_where a = filter (\<lambda>i. a ! i \<noteq> 0) [0..<length a]"

text \<open>\<^verbatim>\<open>stable_cumsum(a)\<close>: the running sums, as floats.\<close>

fun cumsum_from :: "real \<Rightarrow> real list \<Rightarrow> real list" where
  "cumsum_from acc [] = []"
| "cumsum_from acc (x # xs) = (acc + x) # cumsum_from (acc + x) xs"

definition stable_cumsum :: "real list \<Rightarrow> real list" where
  "stable_cumsum a = cumsum_from 0 a"

text \<open>
  \<^verbatim>\<open>np.divide(a, b, out=o, where=w)\<close>: the quotient where the mask holds, the entry of
  \<open>o\<close> elsewhere.
\<close>

definition np_divide :: "real list \<Rightarrow> real list \<Rightarrow> real list \<Rightarrow> bool list \<Rightarrow> fval list" where
  "np_divide a b out wh =
     map (\<lambda>(x, y, z, w). if w then fdiv x y else Some z) (zip a (zip b (zip out wh)))"

definition np_zeros_like :: "real list \<Rightarrow> real list" where
  "np_zeros_like a = map (\<lambda>_. 0) a"

section \<open>The ranking and partition steps shared by both curves\<close>

text \<open>\<^verbatim>\<open>desc_score_indices = np.argsort(uplift, kind="mergesort")[::-1]\<close>\<close>

definition desc_score_indices :: "real list \<Rightarrow> nat list" where
  "desc_score_indices uplift = rev (argsort_mergesort uplift)"

text \<open>\<^verbatim>\<open>y_true_ctrl[treatment == 1] = 0\<close> and \<^verbatim>\<open>y_true_trmnt[treatment == 0] = 0\<close>\<close>

definition mask_ctrl :: "real list \<Rightarrow> int list \<Rightarrow> real list" where
  "mask_ctrl y t = map (\<lambda>(v, g). if g = 1 then 0 else v) (zip y t)"

definition mask_trmnt :: "real list \<Rightarrow> int list \<Rightarrow> real list" where
  "mask_trmnt y t = map (\<lambda>(v, g). if g = 0 then 0 else v) (zip y t)"

text \<open>
  \<^verbatim>\<open>distinct_value_indices = np.where(np.diff(uplift))[0]\<close> and
  \<^verbatim>\<open>threshold_indices = np.r_[distinct_value_indices, uplift.size - 1]\<close>
\<close>

definition threshold_indices :: "real list \<Rightarrow> int list" where
  "threshold_indices uplift = map int (np_where (np_diff uplift)) @ [int (length uplift) - 1]"

text \<open>
  The prefix shared by \<^verbatim>\<open>uplift_curve\<close> and \<^verbatim>\<open>qini_curve\<close> (lines 31-49 and
  85-107): the five arrays \<open>num_all\<close>, \<open>num_trmnt\<close>, \<open>num_ctrl\<close>, \<open>y_trmnt\<close>, \<open>y_ctrl\<close>.
\<close>

record cumulative =
  num_all :: "int list"
  num_trmnt :: "real list"
  num_ctrl :: "real list"
  y_trmnt :: "real list"
  y_ctrl :: "real list"

definition cumulative_arrays :: "real list \<Rightarrow> real list \<Rightarrow> int list \<Rightarrow> error + cumulative" where
  "cumulative_arrays y_true uplift treatment =
     (let desc = desc_score_indices uplift in
      bind_err (np_take y_true desc) (\<lambda>y.
      bind_err (np_take uplift desc) (\<lambda>u.
      bind_err (np_take treatment desc) (\<lambda>t.
      let y_true_ctrl = mask_ctrl y t;
          y_true_trmnt = mask_trmnt y t;
          ths = threshold_indices u
      in
      bind_err (np_take_int (stable_cumsum (map real_of_int t)) ths) (\<lambda>nt.
      bind_err (np_take_int (stable_cumsum y_true_trmnt) ths) (\<lambda>yt.
      let na = map (\<lambda>i. i + 1) ths;
          nc = map (\<lambda>(a, b). real_of_int a - b) (zip na nt)
      in
      bind_err (np_take_int (stable_cumsum y_true_ctrl) ths) (\<lambda>yc.
      Inr \<lparr>num_all = na, num_trmnt = nt, num_ctrl = nc, y_trmnt = yt, y_ctrl = yc\<rparr>)))))))"

text \<open>
  Lines 54-58 and 110-114: the synthetic first point.  \<^verbatim>\<open>or\<close> evaluates left to right and
  stops at the first true operand, so the heads are read only of non-empty arrays; a
  non-finite first value differs from 0.
\<close>

definition start_at_origin :: "int list \<Rightarrow> fval list \<Rightarrow> int list \<times> fval list" where
  "start_at_origin na curve_values =
     (if na = [] then (0 # na, Some 0 # curve_values)
      else if hd curve_values \<noteq> Some 0 then (0 # na, Some 0 # curve_values)
      else if hd na \<noteq> 0 then (0 # na, Some 0 # curve_values)
      else (na, curve_values))"

section \<open>The two curves\<close>

text \<open>
  Lines 51-52:
  \<^verbatim>\<open>(np.divide(y_trmnt, num_trmnt, out=zeros, where=num_trmnt != 0)
    - np.divide(y_ctrl, num_ctrl, out=zeros, where=num_ctrl != 0)) * num_all\<close>
\<close>

definition uplift_values :: "cumulative \<Rightarrow> fval list" where
  "uplift_values c =
     map (\<lambda>(d, n). fmul d (Some (real_of_int n)))
       (zip
         (map (\<lambda>(a, b). fsub a b)
           (zip
             (np_divide (y_trmnt c) (num_trmnt c) (np_zeros_like (y_trmnt c))
                (map (\<lambda>n. n \<noteq> 0) (num_trmnt c)))
             (np_divide (y_ctrl c) (num_ctrl c) (np_zeros_like (y_ctrl c))
                (map (\<lambda>n. n \<noteq> 0) (num_ctrl c)))))
         (num_all c))"

definition uplift_curve :: "real list \<Rightarrow> real list \<Rightarrow> int list \<Rightarrow> error + (int list \<times> fval list)" where
  "uplift_curve y_true uplift treatment =
     (case cumulative_arrays y_true uplift treatment of
        Inl e \<Rightarrow> Inl e
      | Inr c \<Rightarrow> Inr (start_at_origin (num_all c) (uplift_values c)))"

text \<open>
  Line 109:
  \<^verbatim>\<open>y_trmnt - y_ctrl * np.divide(num_trmnt, num_ctrl, out=zeros, where=num_ctrl != 0)\<close>
\<close>

definition qini_values :: "cumulative \<Rightarrow> fval list" where
  "qini_values c =
     map (\<lambda>(a, b). fsub (Some a) b)
       (zip (y_trmnt c)
         (map (\<lambda>(a, b). fmul (Some a) b)
           (zip (y_ctrl c)
             (np_divide (num_trmnt c) (num_ctrl c) (np_zeros_like (num_trmnt c))
                (map (\<lambda>n. n \<noteq> 0) (num_ctrl c))))))"

definition qini_curve :: "real list \<Rightarrow> real list \<Rightarrow> int list \<Rightarrow> error + (int list \<times> fval list)" where
  "qini_curve y_true uplift treatment =
     (case cumulative_arrays y_true uplift treatment of
        Inl e \<Rightarrow> Inl e
      | Inr c \<Rightarrow> Inr (start_at_origin (num_all c) (qini_values c)))"

section \<open>The curves as the specification words them\<close>

text \<open>
  The subjects in ranking order: the outcome and the group of each, and the ranked scores.
\<close>

definition ranked :: "real list \<Rightarrow> real list \<Rightarrow> int list \<Rightarrow> (real \<times> int) list" where
  "ranked y_true uplift treatment = map (\<lambda>i. (y_true ! i, treatment ! i)) (desc_score_indices uplift)"

definition ranked_score :: "real list \<Rightarrow> real list" where
  "ranked_score uplift = map (\<lambda>i. uplift ! i) (desc_score_indices uplift)"

text \<open>
  The threshold positions in the specification's words: every index \<open>i\<close> where
  \<open>score[i] \<noteq> score[i+1]\<close>, plus the last index.
\<close>

definition threshold_positions :: "real list \<Rightarrow> nat list" where
  "threshold_positions s = filter (\<lambda>i. s ! i \<noteq> s ! Suc i) [0..<length s - 1] @ [length s - 1]"

text \<open>The size of a group among some subjects, the sum of its outcomes, and its mean outcome,
  which is 0 for an empty group.\<close>

definition group_count :: "int \<Rightarrow> (real \<times> int) list \<Rightarrow> nat" where
  "group_count g xs = length (filter (\<lambda>(v, h). h = g) xs)"

definition group_sum :: "int \<Rightarrow> (real \<times> int) list \<Rightarrow> real" where
  "group_sum g xs = sum_list (map fst (filter (\<lambda>(v, h). h = g) xs))"

definition group_mean :: "int \<Rightarrow> (real \<times> int) list \<Rightarrow> real" where
  "group_mean g xs = (if group_count g xs = 0 then 0 else group_sum g xs / real (group_count g xs))"

text \<open>The value of the Uplift curve over the subjects scanned so far.\<close>

definition uplift_value :: "(real \<times> int) list \<Rightarrow> real" where
  "uplift_value xs = (group_mean 1 xs - group_mean 0 xs) * real (length xs)"

text \<open>The value of the Qini curve over the subjects scanned so far.\<close>

definition qini_value :: "(real \<times> int) list \<Rightarrow> real" where
  "qini_value xs =
     group_sum 1 xs - group_sum 0 xs *
       (if group_count 0 xs = 0 then 0 else real (group_count 1 xs) / real (group_count 0 xs))"

text \<open>A treatment array is binary when every label is 0 or 1.\<close>

definition binary :: "int list \<Rightarrow> bool" where
  "binary treatment = list_all (\<lambda>g. g = 0 \<or> g = 1) treatment"

text \<open>The same for a list of subjects, each an outcome with its label.\<close>

definition binary_pairs :: "(real \<times> int) list \<Rightarrow> bool" where
  "binary_pairs xs = list_all (\<lambda>(v, g). g = 0 \<or> g = 1) xs"

text \<open>Every subject of the list is treated.\<close>

definition all_treated :: "(real \<times> int) list \<Rightarrow> bool" where
  "all_treated xs = list_all (\<lambda>(v, g). g = 1) xs"

text \<open>
  The running totals that the cumulative sums hold at a position of the ranking: the sum of the
  treatment labels, and the sums of the two masked copies of the outcome.
\<close>

definition cum_trmnt_count :: "(real \<times> int) list \<Rightarrow> real" where
  "cum_trmnt_count xs = sum_list (map (\<lambda>(v, g). real_of_int g) xs)"

definition cum_trmnt_sum :: "(real \<times> int) list \<Rightarrow> real" where
  "cum_trmnt_sum xs = sum_list (map (\<lambda>(v, g). if g = 0 then 0 else v) xs)"

definition cum_ctrl_sum :: "(real \<times> int) list \<Rightarrow> real" where
  "cum_ctrl_sum xs = sum_list (map (\<lambda>(v, g). if g = 1 then 0 else v) xs)"

section \<open>The score of the first k observations\<close>

text \<open>
  The window parameter \<open>k\<close> as Python passes it: an \<^verbatim>\<open>int\<close>, a \<^verbatim>\<open>float\<close>, or a value
  of another kind, of which \<^verbatim>\<open>bool\<close> is the representative here.
\<close>

datatype kval = KInt int | KFloat real | KBool bool

text \<open>
  \<^verbatim>\<open>np.asarray(k).dtype.kind\<close>: a Python integer is of kind \<open>i\<close> when it fits 64 signed
  bits, of kind \<open>u\<close> when it only fits 64 unsigned bits, and an object (\<open>O\<close>) beyond that.
\<close>

definition k_kind :: "kval \<Rightarrow> char" where
  "k_kind k =
     (case k of
        KInt i \<Rightarrow>
          (if - (2 ^ 63) \<le> i \<and> i < 2 ^ 63 then CHR ''i''
           else if 2 ^ 63 \<le> i \<and> i < 2 ^ 64 then CHR ''u''
           else CHR ''O'')
      | KFloat r \<Rightarrow> CHR ''f''
      | KBool b \<Rightarrow> CHR ''b'')"

text \<open>The number that \<open>k\<close> denotes in a comparison or a product.\<close>

definition k_num :: "kval \<Rightarrow> real" where
  "k_num k = (case k of KInt i \<Rightarrow> real_of_int i | KFloat r \<Rightarrow> r | KBool b \<Rightarrow> (if b then 1 else 0))"

text \<open>The window size for a \<open>k\<close> that is used directly as a count.\<close>

definition k_int :: "kval \<Rightarrow> int" where
  "k_int k = (case k of KInt i \<Rightarrow> i | KFloat r \<Rightarrow> \<lfloor>r\<rfloor> | KBool b \<Rightarrow> (if b then 1 else 0))"

text \<open>
  \<^verbatim>\<open>check_consistent_length(*arrays)\<close> of scikit-learn: the lengths must all be the same.
\<close>

definition check_consistent_length :: "nat list \<Rightarrow> bool" where
  "check_consistent_length lengths = (length (remdups lengths) \<le> 1)"

text \<open>
  \<^verbatim>\<open>np.unique(a, return_counts=True)[1]\<close>: the number of occurrences of each distinct value,
  the values in ascending order.
\<close>

definition np_unique_counts :: "int list \<Rightarrow> nat list" where
  "np_unique_counts a = map (\<lambda>v. count_list a v) (sort (remdups a))"

text \<open>\<^verbatim>\<open>a[i]\<close> for a non-negative literal index: out of range raises.\<close>

definition np_get :: "'a list \<Rightarrow> nat \<Rightarrow> error + 'a" where
  "np_get a i = (if i < length a then Inr (a ! i) else Inl IndexError)"

text \<open>\<^verbatim>\<open>a[:n]\<close>: a negative bound counts from the end.\<close>

definition py_take :: "int \<Rightarrow> 'a list \<Rightarrow> 'a list" where
  "py_take n a = (if 0 \<le> n then take (nat n) a else take (length a - nat (- n)) a)"

text \<open>\<^verbatim>\<open>a[mask]\<close> for a boolean mask, which must have the length of \<open>a\<close>.\<close>

definition np_mask :: "'a list \<Rightarrow> bool list \<Rightarrow> error + 'a list" where
  "np_mask a m =
     (if length m = length a then Inr (map fst (filter snd (zip a m))) else Inl IndexError)"

text \<open>\<^verbatim>\<open>a.mean()\<close>: NaN, with a warning and no exception, for an empty array.\<close>

definition np_mean :: "real list \<Rightarrow> fval" where
  "np_mean a = (if a = [] then None else Some (sum_list a / real (length a)))"

text \<open>
  \<^verbatim>\<open>n * k\<close> for a count \<open>n\<close> and a Python float \<open>k\<close> is a float64: the exact product, rounded.
  The rounding is not modelled, so the function \<open>float_mul\<close> that the product stands for is a
  parameter of the model; \<^verbatim>\<open>math.ceil\<close> of the rounded product is then an exact integer.
\<close>

text \<open>
  Lines 199-207, \<^verbatim>\<open>average == 'first'\<close>: the first \<open>n_size\<close> subjects of the ranking,
  then the mean outcome of each group among them.
\<close>

definition score_first ::
  "nat list \<Rightarrow> (real \<Rightarrow> real \<Rightarrow> real) \<Rightarrow> real list \<Rightarrow> int list \<Rightarrow> kval \<Rightarrow> error + fval" where
  "score_first order float_mul y_true treatment k =
     (let n_size = (if k_kind k = CHR ''f''
                    then \<lceil>float_mul (real (length y_true)) (k_num k)\<rceil> else k_int k) in
      bind_err (np_take y_true order) (\<lambda>yo.
      bind_err (np_take treatment order) (\<lambda>to.
      bind_err (np_mask (py_take n_size yo) (map (\<lambda>g. g = 0) (py_take n_size to))) (\<lambda>yc.
      bind_err (np_mask (py_take n_size yo) (map (\<lambda>g. g = 1) (py_take n_size to))) (\<lambda>yt.
      Inr (fsub (np_mean yt) (np_mean yc)))))))"

text \<open>
  Lines 209-230, \<^verbatim>\<open>average == 'group'\<close>: the first \<open>n_ctrl\<close> control subjects and the
  first \<open>n_trmnt\<close> treated subjects of the ranking.
\<close>

definition score_group ::
  "nat list \<Rightarrow> (real \<Rightarrow> real \<Rightarrow> real) \<Rightarrow> real list \<Rightarrow> int list \<Rightarrow> kval \<Rightarrow> nat \<Rightarrow> nat
     \<Rightarrow> error + fval" where
  "score_group order float_mul y_true treatment k n_samples_ctrl n_samples_trmnt =
     (let n_ctrl = (if k_kind k = CHR ''f''
                    then \<lceil>float_mul (real (length (filter (\<lambda>g. g = 0) treatment))) (k_num k)\<rceil>
                    else k_int k);
          n_trmnt = (if k_kind k = CHR ''f''
                     then \<lceil>float_mul (real (length (filter (\<lambda>g. g = 1) treatment))) (k_num k)\<rceil>
                     else k_int k)
      in
      if n_ctrl > int n_samples_ctrl then Inl (ValueError GroupCtrl)
      else if n_trmnt > int n_samples_trmnt then Inl (ValueError GroupTrmnt)
      else
      bind_err (np_take y_true order) (\<lambda>yo.
      bind_err (np_take treatment order) (\<lambda>to.
      bind_err (np_mask yo (map (\<lambda>g. g = 0) to)) (\<lambda>yc.
      bind_err (np_mask yo (map (\<lambda>g. g = 1) to)) (\<lambda>yt.
      Inr (fsub (np_mean (py_take n_trmnt yt)) (np_mean (py_take n_ctrl yc))))))))"

text \<open>
  \<^verbatim>\<open>order = np.argsort(uplift)[::-1]\<close>.  This call leaves numpy's default sort in place, which
  is not a stable one, so the function \<open>argsort\<close> that it stands for is a parameter of the model.
\<close>

definition at_k_order :: "(real list \<Rightarrow> nat list) \<Rightarrow> real list \<Rightarrow> nat list" where
  "at_k_order argsort uplift = rev (argsort uplift)"

text \<open>What \<^verbatim>\<open>np.argsort\<close> promises of its result whatever the kind of sort: a permutation of
  the indices that puts the array in ascending order.\<close>

definition argsort_result :: "real list \<Rightarrow> nat list \<Rightarrow> bool" where
  "argsort_result a idx = (sort idx = [0..<length a] \<and> sorted (map (\<lambda>i. a ! i) idx))"

text \<open>
  \<^verbatim>\<open>uplift_at_k(y_true, uplift, treatment, k, average)\<close>, lines 174-232.  The function does
  not convert its three inputs: they are numpy arrays, which it indexes with the index array
  \<open>order\<close> and compares elementwise with 0 and 1.
\<close>

definition uplift_at_k ::
  "(real list \<Rightarrow> nat list) \<Rightarrow> (real \<Rightarrow> real \<Rightarrow> real) \<Rightarrow> real list \<Rightarrow> real list \<Rightarrow> int list
     \<Rightarrow> kval \<Rightarrow> string \<Rightarrow> error + fval" where
  "uplift_at_k argsort float_mul y_true uplift treatment k average =
     (if \<not> check_consistent_length [length y_true, length uplift, length treatment]
      then Inl (ValueError LengthMismatch)
      else if \<not> List.member [''first'', ''group''] average then Inl (ValueError BadAverage)
      else
      let n_samples = length y_true;
          order = at_k_order argsort uplift;
          treatment_counts = np_unique_counts treatment
      in
      bind_err (np_get treatment_counts 0) (\<lambda>n_samples_ctrl.
      bind_err (np_get treatment_counts 1) (\<lambda>n_samples_trmnt.
      let k_type = k_kind k in
      if (k_type = CHR ''i'' \<and> (k_num k \<ge> real n_samples \<or> k_num k \<le> 0))
         \<or> (k_type = CHR ''f'' \<and> (k_num k \<le> 0 \<or> k_num k \<ge> 1))
      then Inl (ValueError KRange)
      else if \<not> List.member [CHR ''i'', CHR ''f''] k_type then Inl (ValueError KKind)
      else if average = ''first'' then score_first order float_mul y_true treatment k
      else score_group order float_mul y_true treatment k n_samples_ctrl n_samples_trmnt)))"

section \<open>Facts about the primitives\<close>

lemma length_cumsum_from: "length (cumsum_from a xs) = length xs"
  by (induction xs arbitrary: a) simp_all

lemma cumsum_from_nth:
  "i < length xs \<Longrightarrow> cumsum_from a xs ! i = a + sum_list (take (Suc i) xs)"
proof (induction xs arbitrary: a i)
  case Nil
  then show ?case by simp
next
  case (Cons x xs)
  show ?case
  proof (cases i)
    case 0
    then show ?thesis by simp
  next
    case (Suc j)
    with Cons.prems have "j < length xs" by simp
    from Cons.IH [OF this, of "a + x"] Suc show ?thesis by (simp add: add.assoc)
  qed
qed

lemma length_stable_cumsum: "length (stable_cumsum xs) = length xs"
  by (simp add: stable_cumsum_def length_cumsum_from)

lemma stable_cumsum_nth: "i < length xs \<Longrightarrow> stable_cumsum xs ! i = sum_list (take (Suc i) xs)"
  by (simp add: stable_cumsum_def cumsum_from_nth)

lemma mset_desc_score_indices: "mset (desc_score_indices u) = mset [0..<length u]"
  by (simp add: desc_score_indices_def argsort_mergesort_def)

lemma set_desc_score_indices: "set (desc_score_indices u) = {0..<length u}"
  by (simp add: desc_score_indices_def argsort_mergesort_def)

lemma length_desc_score_indices: "length (desc_score_indices u) = length u"
  by (simp add: desc_score_indices_def argsort_mergesort_def)

lemma distinct_desc_score_indices: "distinct (desc_score_indices u)"
  by (simp add: desc_score_indices_def argsort_mergesort_def)

lemma np_take_desc:
  "length u \<le> length a \<Longrightarrow>
   np_take a (desc_score_indices u) = Inr (map (\<lambda>i. a ! i) (desc_score_indices u))"
  by (auto simp: np_take_def list_all_iff set_desc_score_indices)

lemma np_take_int_nat:
  "list_all (\<lambda>i. i < length a) P \<Longrightarrow> np_take_int a (map int P) = Inr (map (\<lambda>i. a ! i) P)"
  by (auto simp: np_take_int_def list_all_iff index_ok_def index_pos_def)

section \<open>The shared prefix, computed\<close>

lemma threshold_indices_positions:
  assumes "s \<noteq> []"
  shows "threshold_indices s = map int (threshold_positions s)"
proof -
  have len: "length (np_diff s) = length s - 1"
    by (simp add: np_diff_def)
  have w: "np_where (np_diff s) = filter (\<lambda>i. s ! i \<noteq> s ! Suc i) [0..<length s - 1]"
    unfolding np_where_def len
  proof (rule filter_cong [OF refl])
    fix i assume "i \<in> set [0..<length s - 1]"
    then have "np_diff s ! i = s ! Suc i - s ! i"
      by (simp add: np_diff_def)
    then show "(np_diff s ! i \<noteq> 0) = (s ! i \<noteq> s ! Suc i)"
      by auto
  qed
  from assms have "0 < length s" by simp
  then have l: "int (length s) - 1 = int (length s - 1)"
    by linarith
  show ?thesis
    unfolding threshold_indices_def threshold_positions_def w l by simp
qed

lemma threshold_positions_bound:
  assumes "s \<noteq> []"
  shows "list_all (\<lambda>i. i < length s) (threshold_positions s)"
proof -
  from assms have less: "length s - 1 < length s" by (cases s) simp_all
  have "i < length s" if "i \<in> set (threshold_positions s)" for i
  proof -
    from that have "i \<in> set [0..<length s - 1] \<or> i = length s - 1"
      unfolding threshold_positions_def by (simp del: set_upt) blast
    then have "i \<le> length s - 1" by auto
    with less show ?thesis by linarith
  qed
  then show ?thesis
    unfolding list_all_iff by blast
qed

lemma threshold_positions_nonempty: "threshold_positions s \<noteq> []"
  by (simp add: threshold_positions_def)

lemma length_ranked_score: "length (ranked_score u) = length u"
  by (simp add: ranked_score_def length_desc_score_indices)

lemma length_ranked: "length (ranked y u t) = length u"
  by (simp add: ranked_def length_desc_score_indices)

lemma bind_err_Inr: "bind_err (Inr v) f = f v"
  by (simp add: bind_err_def)

lemma bind_err_Inl: "bind_err (Inl e) f = Inl e"
  by (simp add: bind_err_def)

lemma take_stable_cumsum:
  assumes "list_all (\<lambda>i. i < length xs) P"
  shows "np_take_int (stable_cumsum xs) (map int P) = Inr (map (\<lambda>i. sum_list (take (Suc i) xs)) P)"
proof -
  have "list_all (\<lambda>i. i < length (stable_cumsum xs)) P"
    using assms by (simp add: length_stable_cumsum)
  then have "np_take_int (stable_cumsum xs) (map int P) = Inr (map (\<lambda>i. stable_cumsum xs ! i) P)"
    by (rule np_take_int_nat)
  moreover have "map (\<lambda>i. stable_cumsum xs ! i) P = map (\<lambda>i. sum_list (take (Suc i) xs)) P"
    using assms by (intro map_cong) (auto simp: list_all_iff stable_cumsum_nth)
  ultimately show ?thesis by simp
qed

lemma zip_ranked:
  "zip (map (\<lambda>i. y ! i) d) (map (\<lambda>i. t ! i) d) = map (\<lambda>i. (y ! i, t ! i)) d"
  by (induction d) simp_all

lemma cumulative_arrays_eq:
  assumes ne: "u \<noteq> []" and ly: "length y = length u" and lt: "length t = length u"
  defines "P \<equiv> threshold_positions (ranked_score u)"
  defines "R \<equiv> ranked y u t"
  shows "cumulative_arrays y u t = Inr
    \<lparr>num_all = map (\<lambda>i. int i + 1) P,
     num_trmnt = map (\<lambda>i. cum_trmnt_count (take (Suc i) R)) P,
     num_ctrl = map (\<lambda>i. real_of_int (int i + 1) - cum_trmnt_count (take (Suc i) R)) P,
     y_trmnt = map (\<lambda>i. cum_trmnt_sum (take (Suc i) R)) P,
     y_ctrl = map (\<lambda>i. cum_ctrl_sum (take (Suc i) R)) P\<rparr>"
proof -
  let ?d = "desc_score_indices u"
  let ?ys = "map (\<lambda>i. y ! i) ?d" and ?ts = "map (\<lambda>i. t ! i) ?d"
  have ty: "np_take y ?d = Inr ?ys" using ly by (simp add: np_take_desc)
  have tu: "np_take u ?d = Inr (ranked_score u)" by (simp add: np_take_desc ranked_score_def)
  have tt: "np_take t ?d = Inr ?ts" using lt by (simp add: np_take_desc)
  have rne: "ranked_score u \<noteq> []"
    using ne length_ranked_score [of u] by auto
  have ths: "threshold_indices (ranked_score u) = map int P"
    unfolding P_def by (rule threshold_indices_positions [OF rne])
  have bnd: "list_all (\<lambda>i. i < length u) P"
    unfolding P_def using threshold_positions_bound [OF rne] by (simp add: length_ranked_score)
  have zr: "zip ?ys ?ts = R" by (simp add: R_def ranked_def zip_ranked)
  have lR: "length R = length u" by (simp add: R_def length_ranked)
  have m1: "map real_of_int ?ts = map (\<lambda>(v, g). real_of_int g) R"
    by (simp add: R_def ranked_def)
  have c1: "np_take_int (stable_cumsum (map real_of_int ?ts)) (map int P)
      = Inr (map (\<lambda>i. cum_trmnt_count (take (Suc i) R)) P)"
    unfolding m1 using bnd
    by (subst take_stable_cumsum) (simp_all add: lR cum_trmnt_count_def take_map)
  have c2: "np_take_int (stable_cumsum (mask_trmnt ?ys ?ts)) (map int P)
      = Inr (map (\<lambda>i. cum_trmnt_sum (take (Suc i) R)) P)"
    unfolding mask_trmnt_def zr using bnd
    by (subst take_stable_cumsum) (simp_all add: lR cum_trmnt_sum_def take_map)
  have c3: "np_take_int (stable_cumsum (mask_ctrl ?ys ?ts)) (map int P)
      = Inr (map (\<lambda>i. cum_ctrl_sum (take (Suc i) R)) P)"
    unfolding mask_ctrl_def zr using bnd
    by (subst take_stable_cumsum) (simp_all add: lR cum_ctrl_sum_def take_map)
  have z: "map (\<lambda>(a, b). real_of_int a - b)
        (zip (map (\<lambda>i. i + 1) (map int P)) (map (\<lambda>i. cum_trmnt_count (take (Suc i) R)) P))
      = map (\<lambda>i. real_of_int (int i + 1) - cum_trmnt_count (take (Suc i) R)) P"
    by (induction P) simp_all
  show ?thesis
    unfolding cumulative_arrays_def Let_def ty tu tt bind_err_Inr ths c1 c2 c3 z
    by simp
qed

section \<open>The curve values, computed\<close>

lemma uplift_values_map:
  "uplift_values \<lparr>num_all = map a P, num_trmnt = map nt P, num_ctrl = map nc P,
      y_trmnt = map yt P, y_ctrl = map yc P\<rparr>
   = map (\<lambda>i. Some (((if nt i = 0 then 0 else yt i / nt i)
                      - (if nc i = 0 then 0 else yc i / nc i)) * real_of_int (a i))) P"
  by (induction P) (simp_all add: uplift_values_def np_divide_def np_zeros_like_def fdiv_def)

lemma qini_values_map:
  "qini_values \<lparr>num_all = map a P, num_trmnt = map nt P, num_ctrl = map nc P,
      y_trmnt = map yt P, y_ctrl = map yc P\<rparr>
   = map (\<lambda>i. Some (yt i - yc i * (if nc i = 0 then 0 else nt i / nc i))) P"
  by (induction P) (simp_all add: qini_values_def np_divide_def np_zeros_like_def fdiv_def)

lemma start_at_origin_prepends:
  assumes "na \<noteq> []" and "hd na \<noteq> 0"
  shows "start_at_origin na cv = (0 # na, Some 0 # cv)"
  using assms by (simp add: start_at_origin_def)

lemma hd_num_all_nonzero: "P \<noteq> [] \<Longrightarrow> hd (map (\<lambda>i. int i + 1) P) \<noteq> 0"
  by (cases P) simp_all

section \<open>Running totals of a binary treatment are group counts and group sums\<close>

lemma cum_trmnt_count_binary:
  "binary_pairs xs \<Longrightarrow> cum_trmnt_count xs = real (group_count 1 xs)"
  by (induction xs) (auto simp: binary_pairs_def cum_trmnt_count_def group_count_def)

lemma cum_trmnt_sum_binary:
  "binary_pairs xs \<Longrightarrow> cum_trmnt_sum xs = group_sum 1 xs"
  by (induction xs) (auto simp: binary_pairs_def cum_trmnt_sum_def group_sum_def)

lemma cum_ctrl_sum_binary:
  "binary_pairs xs \<Longrightarrow> cum_ctrl_sum xs = group_sum 0 xs"
  by (induction xs) (auto simp: binary_pairs_def cum_ctrl_sum_def group_sum_def)

lemma group_counts_binary:
  "binary_pairs xs \<Longrightarrow> group_count 0 xs + group_count 1 xs = length xs"
  by (induction xs) (auto simp: binary_pairs_def group_count_def)

lemma binary_pairs_take: "binary_pairs xs \<Longrightarrow> binary_pairs (take k xs)"
  unfolding binary_pairs_def list_all_iff using set_take_subset [of k xs] by blast

lemma binary_pairs_ranked:
  assumes "binary t" and "length t = length u"
  shows "binary_pairs (ranked y u t)"
proof -
  have "t ! i = 0 \<or> t ! i = 1" if "i \<in> set (desc_score_indices u)" for i
  proof -
    from that have "i < length t" using assms(2) by (simp add: set_desc_score_indices)
    then have "t ! i \<in> set t" by simp
    with assms(1) show ?thesis unfolding binary_def list_all_iff by blast
  qed
  then show ?thesis
    unfolding binary_pairs_def ranked_def list_all_iff by auto
qed

section \<open>Both curves on a non-empty input\<close>

lemma uplift_curve_eq:
  assumes "u \<noteq> []" and "length y = length u" and "length t = length u"
  shows "uplift_curve y u t = Inr
    (0 # map (\<lambda>i. int i + 1) (threshold_positions (ranked_score u)),
     Some 0 # map (\<lambda>i. Some
        (((if cum_trmnt_count (take (Suc i) (ranked y u t)) = 0 then 0
           else cum_trmnt_sum (take (Suc i) (ranked y u t)) / cum_trmnt_count (take (Suc i) (ranked y u t)))
          - (if real_of_int (int i + 1) - cum_trmnt_count (take (Suc i) (ranked y u t)) = 0 then 0
             else cum_ctrl_sum (take (Suc i) (ranked y u t))
                  / (real_of_int (int i + 1) - cum_trmnt_count (take (Suc i) (ranked y u t)))))
         * real_of_int (int i + 1)))
       (threshold_positions (ranked_score u)))"
  unfolding uplift_curve_def cumulative_arrays_eq [OF assms] sum.case cumulative.simps
    uplift_values_map
  by (simp add: start_at_origin_prepends threshold_positions_nonempty hd_num_all_nonzero)

lemma qini_curve_eq:
  assumes "u \<noteq> []" and "length y = length u" and "length t = length u"
  shows "qini_curve y u t = Inr
    (0 # map (\<lambda>i. int i + 1) (threshold_positions (ranked_score u)),
     Some 0 # map (\<lambda>i. Some
        (cum_trmnt_sum (take (Suc i) (ranked y u t))
         - cum_ctrl_sum (take (Suc i) (ranked y u t))
           * (if real_of_int (int i + 1) - cum_trmnt_count (take (Suc i) (ranked y u t)) = 0 then 0
              else cum_trmnt_count (take (Suc i) (ranked y u t))
                   / (real_of_int (int i + 1) - cum_trmnt_count (take (Suc i) (ranked y u t))))))
       (threshold_positions (ranked_score u)))"
  unfolding qini_curve_def cumulative_arrays_eq [OF assms] sum.case cumulative.simps
    qini_values_map
  by (simp add: start_at_origin_prepends threshold_positions_nonempty hd_num_all_nonzero)

lemma ctrl_count_binary:
  assumes "binary_pairs X"
  shows "real (length X) - cum_trmnt_count X = real (group_count 0 X)"
proof -
  have "real (group_count 0 X) + real (group_count 1 X) = real (length X)"
    using group_counts_binary [OF assms] by (metis of_nat_add)
  then show ?thesis
    by (simp add: cum_trmnt_count_binary [OF assms])
qed

lemma uplift_value_code:
  assumes "binary_pairs X"
  shows "((if cum_trmnt_count X = 0 then 0 else cum_trmnt_sum X / cum_trmnt_count X)
          - (if real (length X) - cum_trmnt_count X = 0 then 0
             else cum_ctrl_sum X / (real (length X) - cum_trmnt_count X)))
         * real (length X) = uplift_value X"
proof -
  have d: "real (length X) - real (group_count 1 X) = real (group_count 0 X)"
    using ctrl_count_binary [OF assms] by (simp add: cum_trmnt_count_binary [OF assms])
  show ?thesis
    unfolding cum_trmnt_count_binary [OF assms] cum_trmnt_sum_binary [OF assms]
      cum_ctrl_sum_binary [OF assms] d
    by (simp add: uplift_value_def group_mean_def)
qed

lemma qini_value_code:
  assumes "binary_pairs X"
  shows "cum_trmnt_sum X - cum_ctrl_sum X *
          (if real (length X) - cum_trmnt_count X = 0 then 0
           else cum_trmnt_count X / (real (length X) - cum_trmnt_count X))
         = qini_value X"
proof -
  have d: "real (length X) - real (group_count 1 X) = real (group_count 0 X)"
    using ctrl_count_binary [OF assms] by (simp add: cum_trmnt_count_binary [OF assms])
  show ?thesis
    unfolding cum_trmnt_count_binary [OF assms] cum_trmnt_sum_binary [OF assms]
      cum_ctrl_sum_binary [OF assms] d
    by (simp add: qini_value_def)
qed

lemma length_take_ranked:
  assumes "i \<in> set (threshold_positions (ranked_score u))" and "u \<noteq> []"
  shows "length (take (Suc i) (ranked y u t)) = Suc i"
proof -
  have "ranked_score u \<noteq> []" using assms(2) length_ranked_score [of u] by auto
  from threshold_positions_bound [OF this] assms(1) have "i < length u"
    by (simp add: list_all_iff length_ranked_score)
  then show ?thesis by (simp add: length_ranked)
qed

lemma uplift_curve_binary:
  assumes ne: "u \<noteq> []" and ly: "length y = length u" and lt: "length t = length u"
    and bin: "binary t"
  shows "uplift_curve y u t = Inr
    (0 # map (\<lambda>i. int (Suc i)) (threshold_positions (ranked_score u)),
     Some 0 # map (\<lambda>i. Some (uplift_value (take (Suc i) (ranked y u t))))
       (threshold_positions (ranked_score u)))"
proof -
  have "((if cum_trmnt_count (take (Suc i) (ranked y u t)) = 0 then 0
           else cum_trmnt_sum (take (Suc i) (ranked y u t)) / cum_trmnt_count (take (Suc i) (ranked y u t)))
          - (if real_of_int (int i + 1) - cum_trmnt_count (take (Suc i) (ranked y u t)) = 0 then 0
             else cum_ctrl_sum (take (Suc i) (ranked y u t))
                  / (real_of_int (int i + 1) - cum_trmnt_count (take (Suc i) (ranked y u t)))))
         * real_of_int (int i + 1) = uplift_value (take (Suc i) (ranked y u t))"
    if "i \<in> set (threshold_positions (ranked_score u))" for i
  proof -
    let ?X = "take (Suc i) (ranked y u t)"
    have b: "binary_pairs ?X"
      by (rule binary_pairs_take) (rule binary_pairs_ranked [OF bin lt])
    have l: "real_of_int (int i + 1) = real (length ?X)"
      using length_take_ranked [OF that ne, of y t] by simp
    show ?thesis unfolding l by (rule uplift_value_code [OF b])
  qed
  then show ?thesis
    unfolding uplift_curve_eq [OF ne ly lt] by simp
qed

lemma qini_curve_binary:
  assumes ne: "u \<noteq> []" and ly: "length y = length u" and lt: "length t = length u"
    and bin: "binary t"
  shows "qini_curve y u t = Inr
    (0 # map (\<lambda>i. int (Suc i)) (threshold_positions (ranked_score u)),
     Some 0 # map (\<lambda>i. Some (qini_value (take (Suc i) (ranked y u t))))
       (threshold_positions (ranked_score u)))"
proof -
  have "cum_trmnt_sum (take (Suc i) (ranked y u t))
         - cum_ctrl_sum (take (Suc i) (ranked y u t))
           * (if real_of_int (int i + 1) - cum_trmnt_count (take (Suc i) (ranked y u t)) = 0 then 0
              else cum_trmnt_count (take (Suc i) (ranked y u t))
                   / (real_of_int (int i + 1) - cum_trmnt_count (take (Suc i) (ranked y u t))))
        = qini_value (take (Suc i) (ranked y u t))"
    if "i \<in> set (threshold_positions (ranked_score u))" for i
  proof -
    let ?X = "take (Suc i) (ranked y u t)"
    have b: "binary_pairs ?X"
      by (rule binary_pairs_take) (rule binary_pairs_ranked [OF bin lt])
    have l: "real_of_int (int i + 1) = real (length ?X)"
      using length_take_ranked [OF that ne, of y t] by simp
    show ?thesis unfolding l by (rule qini_value_code [OF b])
  qed
  then show ?thesis
    unfolding qini_curve_eq [OF ne ly lt] by simp
qed

section \<open>The claims about the Uplift curve\<close>

text \<open>
  C1.  For a non-empty input of equal lengths with a binary treatment, the Uplift curve has one
  value per threshold position \<open>i\<close> of the ranking, after the synthetic first point; the
  value is finite (neither NaN nor an infinity) and equals the mean outcome of the treated among
  the first \<open>i + 1\<close> ranked subjects minus the mean outcome of the control among them, times
  \<open>i + 1\<close>, where the mean of an empty group is 0.
\<close>

theorem uplift_curve_values:
  assumes "uplift \<noteq> []"
    and "length y_true = length uplift"
    and "length treatment = length uplift"
    and "binary treatment"
  shows "uplift_curve y_true uplift treatment = Inr
    (0 # map (\<lambda>i. int (Suc i)) (threshold_positions (ranked_score uplift)),
     Some 0 # map (\<lambda>i. Some (uplift_value (take (Suc i) (ranked y_true uplift treatment))))
       (threshold_positions (ranked_score uplift)))"
  using assms by (rule uplift_curve_binary)

theorem uplift_curve_values_witness:
  "[3, 3, 1 :: real] \<noteq> []
   \<and> length [1, 0, 1 :: real] = length [3, 3, 1 :: real]
   \<and> length [1, 0, 1 :: int] = length [3, 3, 1 :: real]
   \<and> binary [1, 0, 1]
   \<and> uplift_curve [1, 0, 1] [3, 3, 1] [1, 0, 1] = Inr
        (0 # map (\<lambda>i. int (Suc i)) (threshold_positions (ranked_score [3, 3, 1])),
         Some 0 # map (\<lambda>i. Some (uplift_value (take (Suc i) (ranked [1, 0, 1] [3, 3, 1] [1, 0, 1]))))
           (threshold_positions (ranked_score [3, 3, 1])))"
  using uplift_curve_values [of "[3, 3, 1]" "[1, 0, 1]" "[1, 0, 1]"]
  by (simp add: binary_def)

section \<open>The ranking is descending, and thresholds respect it\<close>

lemma ranked_score_rev:
  "ranked_score u = rev (map (\<lambda>i. u ! i) (argsort_mergesort u))"
  by (simp add: ranked_score_def desc_score_indices_def rev_map)

lemma sorted_rev_ranked_score: "sorted (rev (ranked_score u))"
  by (simp add: ranked_score_rev argsort_mergesort_def)

lemma ranked_score_antimono:
  assumes "i \<le> j" and "j < length u"
  shows "ranked_score u ! j \<le> ranked_score u ! i"
  using sorted_rev_nth_mono [OF sorted_rev_ranked_score, of i j u] assms
  by (simp add: length_ranked_score)

lemma mem_filter_upt_last:
  "0 < n \<Longrightarrow> p \<in> set (filter Q [0..<n - 1] @ [n - 1]) \<longleftrightarrow> p < n \<and> (Suc p = n \<or> Q p)"
  by auto

lemma threshold_positions_member:
  assumes "s \<noteq> []"
  shows "p \<in> set (threshold_positions s)
     \<longleftrightarrow> p < length s \<and> (Suc p = length s \<or> s ! p \<noteq> s ! Suc p)"
proof -
  from assms have "0 < length s" by simp
  then show ?thesis
    unfolding threshold_positions_def by (rule mem_filter_upt_last)
qed

lemma sorted_filter_upt_last:
  "sorted_wrt (<) (filter Q [0..<n - 1] @ [n - 1])"
  by (auto simp: sorted_wrt_append intro: sorted_wrt_filter)

lemma sorted_threshold_positions: "sorted_wrt (<) (threshold_positions s)"
  unfolding threshold_positions_def by (rule sorted_filter_upt_last)

lemma sorted_counts:
  "sorted_wrt (<) P \<Longrightarrow> sorted_wrt (<) (0 # map (\<lambda>i. int i + 1) P)"
proof -
  assume "sorted_wrt (<) P"
  then have "sorted_wrt (\<lambda>x y. int x + 1 < int y + 1) P"
    by (rule sorted_wrt_mono_rel [rotated]) simp
  then show ?thesis
    by (simp add: sorted_wrt_map)
qed

section \<open>What a curve returns on any input\<close>

lemma np_take_length: "np_take a idx = Inr b \<Longrightarrow> length b = length idx"
  by (auto simp: np_take_def split: if_splits)

lemma np_take_self: "np_take u (desc_score_indices u) = Inr (ranked_score u)"
  by (simp add: np_take_desc ranked_score_def)

lemma np_take_int_empty: "np_take_int ([] :: real list) (threshold_indices []) = Inl IndexError"
  by (simp add: np_take_int_def threshold_indices_def np_where_def np_diff_def index_ok_def)

lemma cumulative_arrays_num_all:
  assumes "cumulative_arrays y u t = Inr c"
  shows "u \<noteq> [] \<and> num_all c = map (\<lambda>i. int i + 1) (threshold_positions (ranked_score u))"
proof -
  from assms obtain y' t' nt where
    ty: "np_take y (desc_score_indices u) = Inr y'" and
    tt: "np_take t (desc_score_indices u) = Inr t'" and
    nt: "np_take_int (stable_cumsum (map real_of_int t')) (threshold_indices (ranked_score u)) = Inr nt" and
    na: "num_all c = map (\<lambda>i. i + 1) (threshold_indices (ranked_score u))"
    unfolding cumulative_arrays_def Let_def np_take_self bind_err_Inr
    by (auto simp: bind_err_def split: sum.splits)
  have ne: "u \<noteq> []"
  proof
    assume "u = []"
    then have "t' = []" using np_take_length [OF tt] by (simp add: length_desc_score_indices)
    moreover have "ranked_score u = []" using \<open>u = []\<close> length_ranked_score [of u] by simp
    ultimately show False using nt np_take_int_empty by (simp add: stable_cumsum_def)
  qed
  then have "ranked_score u \<noteq> []" using length_ranked_score [of u] by auto
  from threshold_indices_positions [OF this] na ne show ?thesis by simp
qed

lemma uplift_curve_counts:
  assumes "uplift_curve y u t = Inr (c, v)"
  shows "c = 0 # map (\<lambda>i. int i + 1) (threshold_positions (ranked_score u))"
proof -
  from assms obtain a where a: "cumulative_arrays y u t = Inr a"
    and r: "start_at_origin (num_all a) (uplift_values a) = (c, v)"
    by (auto simp: uplift_curve_def split: sum.splits)
  from cumulative_arrays_num_all [OF a]
  have n: "num_all a = map (\<lambda>i. int i + 1) (threshold_positions (ranked_score u))" by simp
  have "start_at_origin (num_all a) (uplift_values a) = (0 # num_all a, Some 0 # uplift_values a)"
    unfolding n
    by (rule start_at_origin_prepends)
       (simp_all add: threshold_positions_nonempty hd_num_all_nonzero)
  with r n show ?thesis by simp
qed

lemma qini_curve_counts:
  assumes "qini_curve y u t = Inr (c, v)"
  shows "c = 0 # map (\<lambda>i. int i + 1) (threshold_positions (ranked_score u))"
proof -
  from assms obtain a where a: "cumulative_arrays y u t = Inr a"
    and r: "start_at_origin (num_all a) (qini_values a) = (c, v)"
    by (auto simp: qini_curve_def split: sum.splits)
  from cumulative_arrays_num_all [OF a]
  have n: "num_all a = map (\<lambda>i. int i + 1) (threshold_positions (ranked_score u))" by simp
  have "start_at_origin (num_all a) (qini_values a) = (0 # num_all a, Some 0 # qini_values a)"
    unfolding n
    by (rule start_at_origin_prepends)
       (simp_all add: threshold_positions_nonempty hd_num_all_nonzero)
  with r n show ?thesis by simp
qed

text \<open>
  C7.  Whatever the input, the population counts that \<open>uplift_curve\<close> or \<open>qini_curve\<close>
  returns are strictly increasing, the synthetic first count 0 included; and on every non-empty
  input of equal lengths both functions do return.
\<close>

theorem counts_strictly_increasing:
  "(\<forall>c v. uplift_curve y_true uplift treatment = Inr (c, v) \<longrightarrow> sorted_wrt (<) c)
   \<and> (\<forall>c v. qini_curve y_true uplift treatment = Inr (c, v) \<longrightarrow> sorted_wrt (<) c)
   \<and> (uplift \<noteq> [] \<and> length y_true = length uplift \<and> length treatment = length uplift
        \<longrightarrow> (\<exists>c v. uplift_curve y_true uplift treatment = Inr (c, v))
          \<and> (\<exists>c v. qini_curve y_true uplift treatment = Inr (c, v)))"
proof (intro conjI allI impI)
  fix c v assume "uplift_curve y_true uplift treatment = Inr (c, v)"
  from uplift_curve_counts [OF this] show "sorted_wrt (<) c"
    using sorted_counts [OF sorted_threshold_positions] by simp
next
  fix c v assume "qini_curve y_true uplift treatment = Inr (c, v)"
  from qini_curve_counts [OF this] show "sorted_wrt (<) c"
    using sorted_counts [OF sorted_threshold_positions] by simp
next
  assume h: "uplift \<noteq> [] \<and> length y_true = length uplift \<and> length treatment = length uplift"
  then show "\<exists>c v. uplift_curve y_true uplift treatment = Inr (c, v)"
    using uplift_curve_eq [of uplift y_true treatment] by simp
  from h show "\<exists>c v. qini_curve y_true uplift treatment = Inr (c, v)"
    using qini_curve_eq [of uplift y_true treatment] by simp
qed

theorem counts_strictly_increasing_witness:
  "[3, 3, 1 :: real] \<noteq> []
   \<and> length [1, 0, 1 :: real] = length [3, 3, 1 :: real]
   \<and> length [1, 0, 1 :: int] = length [3, 3, 1 :: real]
   \<and> (\<exists>c v. uplift_curve [1, 0, 1] [3, 3, 1] [1, 0, 1] = Inr (c, v) \<and> sorted_wrt (<) c)
   \<and> (\<exists>c v. qini_curve [1, 0, 1] [3, 3, 1] [1, 0, 1] = Inr (c, v) \<and> sorted_wrt (<) c)"
  using counts_strictly_increasing [of "[1, 0, 1]" "[3, 3, 1]" "[1, 0, 1]"]
  by (simp del: sorted_wrt.simps) blast

section \<open>Ties are never split\<close>

lemma tie_not_split:
  assumes ne: "u \<noteq> []"
    and ij: "i < j" "j < length u"
    and tie: "ranked_score u ! i = ranked_score u ! j"
    and p: "p \<in> set (threshold_positions (ranked_score u))"
  shows "\<not> (i \<le> p \<and> p < j)"
proof
  assume b: "i \<le> p \<and> p < j"
  let ?s = "ranked_score u"
  have sne: "?s \<noteq> []" using ne length_ranked_score [of u] by auto
  from b ij have sp: "Suc p \<le> j" "Suc p < length u" by simp_all
  have "?s ! j \<le> ?s ! Suc p"
    using sp(1) ij(2) by (rule ranked_score_antimono)
  moreover have "?s ! Suc p \<le> ?s ! p"
    using sp(2) by (intro ranked_score_antimono) simp_all
  moreover have "?s ! p \<le> ?s ! i"
    using b sp(2) by (intro ranked_score_antimono) simp_all
  ultimately have eq: "?s ! p = ?s ! Suc p"
    using tie by simp
  from p have "Suc p = length ?s \<or> ?s ! p \<noteq> ?s ! Suc p"
    unfolding threshold_positions_member [OF sne] by simp
  with eq have "Suc p = length u" by (simp add: length_ranked_score)
  with sp(2) show False by simp
qed

text \<open>
  C5.  On a non-empty input of equal lengths, the threshold indices that the curve builders
  compute are the positions \<open>i\<close> of the ranking with \<open>score[i] \<noteq> score[i+1]\<close> followed by the
  last position; both curves return these positions, each plus one, as their population counts
  after the synthetic 0; and when the subjects at ranks \<open>i < j\<close> have the same score, no
  threshold position lies in \<open>[i, j)\<close>, so no population count takes one of them without the
  other.
\<close>

theorem thresholds_collapse_ties:
  assumes "uplift \<noteq> []"
    and "length y_true = length uplift"
    and "length treatment = length uplift"
  shows "threshold_indices (ranked_score uplift)
           = map int (threshold_positions (ranked_score uplift))
    \<and> (\<exists>v. uplift_curve y_true uplift treatment
           = Inr (0 # map (\<lambda>p. int p + 1) (threshold_positions (ranked_score uplift)), v))
    \<and> (\<exists>v. qini_curve y_true uplift treatment
           = Inr (0 # map (\<lambda>p. int p + 1) (threshold_positions (ranked_score uplift)), v))
    \<and> (\<forall>p. p \<in> set (threshold_positions (ranked_score uplift))
           \<longleftrightarrow> p < length uplift
               \<and> (Suc p = length uplift
                    \<or> ranked_score uplift ! p \<noteq> ranked_score uplift ! Suc p))
    \<and> (\<forall>i j p. i < j \<and> j < length uplift
           \<and> ranked_score uplift ! i = ranked_score uplift ! j
           \<and> p \<in> set (threshold_positions (ranked_score uplift))
           \<longrightarrow> \<not> (i \<le> p \<and> p < j))"
proof -
  have sne: "ranked_score uplift \<noteq> []"
    using assms(1) length_ranked_score [of uplift] by auto
  have a: "threshold_indices (ranked_score uplift)
           = map int (threshold_positions (ranked_score uplift))"
    by (rule threshold_indices_positions [OF sne])
  have b: "\<exists>v. uplift_curve y_true uplift treatment
           = Inr (0 # map (\<lambda>p. int p + 1) (threshold_positions (ranked_score uplift)), v)"
    unfolding uplift_curve_eq [OF assms] by blast
  have c: "\<exists>v. qini_curve y_true uplift treatment
           = Inr (0 # map (\<lambda>p. int p + 1) (threshold_positions (ranked_score uplift)), v)"
    unfolding qini_curve_eq [OF assms] by blast
  have d: "\<forall>p. p \<in> set (threshold_positions (ranked_score uplift))
           \<longleftrightarrow> p < length uplift
               \<and> (Suc p = length uplift
                    \<or> ranked_score uplift ! p \<noteq> ranked_score uplift ! Suc p)"
    using threshold_positions_member [OF sne] by (simp add: length_ranked_score)
  have e: "\<forall>i j p. i < j \<and> j < length uplift
           \<and> ranked_score uplift ! i = ranked_score uplift ! j
           \<and> p \<in> set (threshold_positions (ranked_score uplift))
           \<longrightarrow> \<not> (i \<le> p \<and> p < j)"
    using tie_not_split [OF assms(1)] by blast
  from a b c d e show ?thesis by blast
qed

theorem thresholds_collapse_ties_witness:
  "[3, 3, 1 :: real] \<noteq> []
   \<and> length [1, 0, 1 :: real] = length [3, 3, 1 :: real]
   \<and> length [1, 0, 1 :: int] = length [3, 3, 1 :: real]
   \<and> ranked_score [3, 3, 1] ! 0 = ranked_score [3, 3, 1] ! 1
   \<and> 1 \<in> set (threshold_positions (ranked_score [3, 3, 1]))
   \<and> 0 \<notin> set (threshold_positions (ranked_score [3, 3, 1]))
   \<and> threshold_indices (ranked_score [3, 3, 1]) = map int (threshold_positions (ranked_score [3, 3, 1]))"
proof -
  have s: "ranked_score [3, 3, 1] = [3, 3, 1]" by code_simp
  have h: "[3, 3, 1 :: real] \<noteq> []" "length [1, 0, 1 :: real] = length [3, 3, 1 :: real]"
    "length [1, 0, 1 :: int] = length [3, 3, 1 :: real]" by simp_all
  note t = thresholds_collapse_ties [OF h]
  from t have m: "\<forall>p. p \<in> set (threshold_positions (ranked_score [3, 3, 1]))
           \<longleftrightarrow> p < length [3, 3, 1 :: real]
               \<and> (Suc p = length [3, 3, 1 :: real]
                    \<or> ranked_score [3, 3, 1] ! p \<noteq> ranked_score [3, 3, 1] ! Suc p)"
    by blast
  have m1: "1 \<in> set (threshold_positions (ranked_score [3, 3, 1]))"
    using m [rule_format, of 1] by (simp add: s)
  from t have n: "\<forall>i j p. i < j \<and> j < length [3, 3, 1 :: real]
           \<and> ranked_score [3, 3, 1] ! i = ranked_score [3, 3, 1] ! j
           \<and> p \<in> set (threshold_positions (ranked_score [3, 3, 1]))
           \<longrightarrow> \<not> (i \<le> p \<and> p < j)" by blast
  have m0: "0 \<notin> set (threshold_positions (ranked_score [3, 3, 1]))"
    using n [rule_format, of 0 1 0] by (auto simp: s)
  from t have "threshold_indices (ranked_score [3, 3, 1]) = map int (threshold_positions (ranked_score [3, 3, 1]))"
    by blast
  with h m1 m0 show ?thesis by (simp add: s)
qed

section \<open>An input without a control group\<close>

lemma all_treated_binary: "all_treated xs \<Longrightarrow> binary_pairs xs"
  by (auto simp: all_treated_def binary_pairs_def list_all_iff)

lemma all_treated_counts:
  "all_treated xs \<Longrightarrow> group_count 1 xs = length xs \<and> group_count 0 xs = 0"
  by (induction xs) (auto simp: all_treated_def group_count_def)

lemma all_treated_sums:
  "all_treated xs \<Longrightarrow> group_sum 1 xs = sum_list (map fst xs) \<and> group_sum 0 xs = 0"
  by (induction xs) (auto simp: all_treated_def group_sum_def)

lemma all_treated_uplift_value:
  assumes "all_treated xs"
  shows "uplift_value xs = sum_list (map fst xs)"
proof (cases "xs = []")
  case True
  then show ?thesis by (simp add: uplift_value_def)
next
  case False
  then have "real (length xs) \<noteq> 0" by simp
  then show ?thesis
    using all_treated_counts [OF assms] all_treated_sums [OF assms]
    by (simp add: uplift_value_def group_mean_def)
qed

lemma all_treated_qini_value:
  assumes "all_treated xs"
  shows "qini_value xs = sum_list (map fst xs)"
  using all_treated_counts [OF assms] all_treated_sums [OF assms]
  by (simp add: qini_value_def)

lemma all_treated_take: "all_treated xs \<Longrightarrow> all_treated (take k xs)"
  unfolding all_treated_def list_all_iff using set_take_subset [of k xs] by blast

lemma all_treated_ranked:
  assumes "list_all (\<lambda>g. g = 1) t" and "length t = length u"
  shows "all_treated (ranked y u t)"
proof -
  have "t ! i = 1" if "i \<in> set (desc_score_indices u)" for i
  proof -
    from that have "i < length t" using assms(2) by (simp add: set_desc_score_indices)
    then have "t ! i \<in> set t" by simp
    with assms(1) show ?thesis unfolding list_all_iff by blast
  qed
  then show ?thesis
    unfolding all_treated_def ranked_def list_all_iff by auto
qed

lemma all_ones_binary: "list_all (\<lambda>g. g = 1) t \<Longrightarrow> binary t"
  by (auto simp: binary_def list_all_iff)

text \<open>
  C6.  When every subject is treated, on a non-empty input of equal lengths, neither curve
  raises and every value is finite: the division by the control count, which is 0 at every
  threshold, contributes 0, so that each value of both curves is the sum of the outcomes of
  the subjects ranked so far.
\<close>

theorem all_treated_curves_finite:
  assumes "uplift \<noteq> []"
    and "length y_true = length uplift"
    and "length treatment = length uplift"
    and "list_all (\<lambda>g. g = 1) treatment"
  shows "uplift_curve y_true uplift treatment = Inr
      (0 # map (\<lambda>i. int (Suc i)) (threshold_positions (ranked_score uplift)),
       Some 0 # map (\<lambda>i. Some (sum_list (map fst (take (Suc i) (ranked y_true uplift treatment)))))
         (threshold_positions (ranked_score uplift)))
    \<and> qini_curve y_true uplift treatment = Inr
      (0 # map (\<lambda>i. int (Suc i)) (threshold_positions (ranked_score uplift)),
       Some 0 # map (\<lambda>i. Some (sum_list (map fst (take (Suc i) (ranked y_true uplift treatment)))))
         (threshold_positions (ranked_score uplift)))"
proof -
  have a: "all_treated (take k (ranked y_true uplift treatment))" for k
    by (rule all_treated_take) (rule all_treated_ranked [OF assms(4) assms(3)])
  have b: "binary treatment" by (rule all_ones_binary [OF assms(4)])
  show ?thesis
    unfolding uplift_curve_binary [OF assms(1-3) b] qini_curve_binary [OF assms(1-3) b]
      all_treated_uplift_value [OF a] all_treated_qini_value [OF a]
    by simp
qed

theorem all_treated_curves_finite_witness:
  "[3, 3, 1 :: real] \<noteq> []
   \<and> length [1, 0, 1 :: real] = length [3, 3, 1 :: real]
   \<and> length [1, 1, 1 :: int] = length [3, 3, 1 :: real]
   \<and> list_all (\<lambda>g. g = 1) [1, 1, 1 :: int]
   \<and> uplift_curve [1, 0, 1] [3, 3, 1] [1, 1, 1] = Inr ([0, 2, 3], [Some 0, Some 1, Some 2])
   \<and> qini_curve [1, 0, 1] [3, 3, 1] [1, 1, 1] = Inr ([0, 2, 3], [Some 0, Some 1, Some 2])"
proof -
  have e: "threshold_positions (ranked_score [3, 3, 1]) = [1, 2]" by code_simp
  have r: "ranked [1, 0, 1] [3, 3, 1] [1, 1, 1] = [(0, 1), (1, 1), (1, 1)]" by code_simp
  show ?thesis
    using all_treated_curves_finite [of "[3, 3, 1]" "[1, 0, 1]" "[1, 1, 1]"]
    by (simp add: e r)
qed

section \<open>Totals do not depend on the order of the subjects\<close>

lemma group_count_mset:
  assumes "mset xs = mset ys"
  shows "group_count g xs = group_count g ys"
proof -
  have "group_count g zs = size (filter_mset (\<lambda>(v, h). h = g) (mset zs))" for zs
    unfolding group_count_def by (metis mset_filter size_mset)
  with assms show ?thesis by simp
qed

lemma group_sum_mset:
  assumes "mset xs = mset ys"
  shows "group_sum g xs = group_sum g ys"
proof -
  have "group_sum g zs = sum_mset (image_mset fst (filter_mset (\<lambda>(v, h). h = g) (mset zs)))" for zs
    unfolding group_sum_def by (metis mset_filter mset_map sum_mset_sum_list)
  with assms show ?thesis by simp
qed

lemma group_mean_mset: "mset xs = mset ys \<Longrightarrow> group_mean g xs = group_mean g ys"
  by (simp add: group_mean_def group_count_mset [of xs ys] group_sum_mset [of xs ys])

lemma qini_value_mset: "mset xs = mset ys \<Longrightarrow> qini_value xs = qini_value ys"
  by (simp add: qini_value_def group_count_mset [of xs ys] group_sum_mset [of xs ys])

lemma zip_as_map_upt:
  assumes "length t = length y"
  shows "zip y t = map (\<lambda>i. (y ! i, t ! i)) [0..<length y]"
  using assms by (intro nth_equalityI) simp_all

lemma mset_pairs_perm:
  assumes "mset p = mset [0..<length y]" and "length t = length y"
  shows "mset (map (\<lambda>i. (y ! i, t ! i)) p) = mset (zip y t)"
proof -
  have "mset (map (\<lambda>i. (y ! i, t ! i)) p) = image_mset (\<lambda>i. (y ! i, t ! i)) (mset [0..<length y])"
    using assms(1) by (metis mset_map)
  also have "\<dots> = mset (map (\<lambda>i. (y ! i, t ! i)) [0..<length y])"
    by (metis mset_map)
  finally show ?thesis by (simp add: zip_as_map_upt [OF assms(2)])
qed

lemma mset_ranked:
  assumes "length y = length u" and "length t = length u"
  shows "mset (ranked y u t) = mset (zip y t)"
  unfolding ranked_def
  by (rule mset_pairs_perm) (simp_all add: assms mset_desc_score_indices)

lemma last_threshold_positions: "last (threshold_positions s) = length s - 1"
  by (simp add: threshold_positions_def)

lemma last_curve_value:
  "last (Some 0 # map f (threshold_positions s)) = f (length s - 1)"
  using threshold_positions_nonempty [of s]
  by (simp add: last_map last_threshold_positions)

lemma qini_curve_last:
  assumes "u \<noteq> []" and "length y = length u" and "length t = length u" and "binary t"
  shows "\<exists>c v. qini_curve y u t = Inr (c, v) \<and> last v = Some (qini_value (zip y t))"
proof -
  have "Suc (length (ranked_score u) - 1) = length (ranked y u t)"
    using assms(1) by (simp add: length_ranked_score length_ranked)
  then have "take (Suc (length (ranked_score u) - 1)) (ranked y u t) = ranked y u t"
    by simp
  then have "last (Some 0 # map (\<lambda>i. Some (qini_value (take (Suc i) (ranked y u t))))
       (threshold_positions (ranked_score u))) = Some (qini_value (ranked y u t))"
    unfolding last_curve_value by simp
  also have "\<dots> = Some (qini_value (zip y t))"
    using qini_value_mset [OF mset_ranked [OF assms(2,3)]] by simp
  finally show ?thesis
    unfolding qini_curve_binary [OF assms] by blast
qed

lemma binary_perm:
  assumes "binary t" and "mset p = mset [0..<length t]"
  shows "binary (map (\<lambda>i. t ! i) p)"
proof -
  have "set p = {0..<length t}" using mset_eq_setD [OF assms(2)] by simp
  then have "t ! i \<in> set t" if "i \<in> set p" for i using that by simp
  with assms(1) show ?thesis unfolding binary_def list_all_iff by auto
qed

text \<open>
  C3.  On a non-empty input of equal lengths with a binary treatment, the last value of the
  Qini curve is the sum of the outcomes of the treated minus the sum of the outcomes of the
  control times the ratio of the number of treated to the number of control, all taken over
  the whole input in its given order, the ratio being 0 when there is no control subject;
  and the curve of the three arrays rearranged by one and the same permutation \<open>p\<close> of the
  indices ends in the same value.
\<close>

theorem qini_final_value:
  assumes "uplift \<noteq> []"
    and "length y_true = length uplift"
    and "length treatment = length uplift"
    and "binary treatment"
    and "mset p = mset [0..<length uplift]"
  shows "\<exists>c v. qini_curve y_true uplift treatment = Inr (c, v)
    \<and> last v = Some
        (group_sum 1 (zip y_true treatment)
         - group_sum 0 (zip y_true treatment) *
           (if group_count 0 (zip y_true treatment) = 0 then 0
            else real (group_count 1 (zip y_true treatment))
                 / real (group_count 0 (zip y_true treatment))))
    \<and> (\<exists>c' v'. qini_curve (map (\<lambda>i. y_true ! i) p) (map (\<lambda>i. uplift ! i) p)
                    (map (\<lambda>i. treatment ! i) p) = Inr (c', v')
          \<and> last v' = last v)"
proof -
  let ?y = "map (\<lambda>i. y_true ! i) p" and ?u = "map (\<lambda>i. uplift ! i) p"
    and ?t = "map (\<lambda>i. treatment ! i) p"
  from qini_curve_last [OF assms(1-4)] obtain c v where
    q: "qini_curve y_true uplift treatment = Inr (c, v)"
    and l: "last v = Some (qini_value (zip y_true treatment))" by blast
  have lp: "length p = length uplift"
    using mset_eq_length [OF assms(5)] by simp
  have ne: "?u \<noteq> []" using lp assms(1) by auto
  have b: "binary ?t"
    by (rule binary_perm [OF assms(4)]) (simp add: assms(3,5))
  from qini_curve_last [OF ne _ _ b, of ?y] obtain c' v' where
    q': "qini_curve ?y ?u ?t = Inr (c', v')"
    and l': "last v' = Some (qini_value (zip ?y ?t))" by auto
  have "mset (zip ?y ?t) = mset (zip y_true treatment)"
    unfolding zip_ranked
    by (rule mset_pairs_perm) (simp_all add: assms)
  from qini_value_mset [OF this] l l' have "last v' = last v" by simp
  with q q' l show ?thesis
    unfolding qini_value_def by blast
qed

theorem qini_final_value_witness:
  "[3, 3, 1 :: real] \<noteq> []
   \<and> length [1, 0, 1 :: real] = length [3, 3, 1 :: real]
   \<and> length [1, 0, 1 :: int] = length [3, 3, 1 :: real]
   \<and> binary [1, 0, 1]
   \<and> mset [2, 0, 1] = mset [0..<length [3, 3, 1 :: real]]
   \<and> (\<exists>c v. qini_curve [1, 0, 1] [3, 3, 1] [1, 0, 1] = Inr (c, v)
        \<and> last v = Some 2
        \<and> (\<exists>c' v'. qini_curve [1, 1, 0] [1, 3, 3] [1, 1, 0] = Inr (c', v') \<and> last v' = last v))"
proof -
  have h: "[3, 3, 1 :: real] \<noteq> []" "length [1, 0, 1 :: real] = length [3, 3, 1 :: real]"
    "length [1, 0, 1 :: int] = length [3, 3, 1 :: real]" by simp_all
  have b: "binary [1, 0, 1]" by (simp add: binary_def)
  have m: "mset [2, 0, 1] = mset [0..<length [3, 3, 1 :: real]]"
    by (simp add: upt_rec)
  have e: "group_sum 1 (zip [1, 0, 1] [1, 0, 1])
         - group_sum 0 (zip [1, 0, 1] [1, 0, 1]) *
           (if group_count 0 (zip [1, 0, 1] [1, 0, 1]) = 0 then 0
            else real (group_count 1 (zip [1, 0, 1] [1, 0, 1]))
                 / real (group_count 0 (zip [1, 0, 1] [1, 0, 1]))) = 2"
    by (simp add: group_sum_def group_count_def)
  show ?thesis
    using qini_final_value [OF h b m] h b m unfolding e
    by simp
qed

section \<open>The order of ties\<close>

lemma desc_score_indices_ties:
  "filter (\<lambda>i. u ! i = k) (desc_score_indices u) = rev (filter (\<lambda>i. u ! i = k) [0..<length u])"
  unfolding desc_score_indices_def argsort_mergesort_def rev_filter [symmetric]
  by (simp only: sort_key_stable)

lemma at_k_order_descending:
  assumes "argsort_result u (argsort u)"
  shows "sorted (rev (map (\<lambda>i. u ! i) (at_k_order argsort u)))
    \<and> mset (at_k_order argsort u) = mset [0..<length u]"
proof -
  from assms have s: "sort (argsort u) = [0..<length u]"
    and d: "sorted (map (\<lambda>i. u ! i) (argsort u))"
    by (simp_all add: argsort_result_def)
  have "mset (argsort u) = mset (sort (argsort u))" by simp
  with s have "mset (argsort u) = mset [0..<length u]" by simp
  with d show ?thesis by (simp add: at_k_order_def rev_map)
qed

text \<open>
  C4, as the code has it.  The ranking of \<open>uplift_curve\<close> and \<open>qini_curve\<close> is a permutation of
  the subjects that puts the scores in descending order, and it is a function of the scores
  alone; the subjects of one and the same score appear in it in the reverse of their original
  order.  The ranking of \<open>uplift_at_k\<close> is a permutation that puts the scores in descending
  order whenever \<open>argsort\<close> returns a sorting permutation.
\<close>

theorem ranking_descending_ties_reversed:
  "mset (desc_score_indices uplift) = mset [0..<length uplift]
   \<and> sorted (rev (ranked_score uplift))
   \<and> (\<forall>k. filter (\<lambda>i. uplift ! i = k) (desc_score_indices uplift)
            = rev (filter (\<lambda>i. uplift ! i = k) [0..<length uplift]))
   \<and> (argsort_result uplift (argsort uplift)
        \<longrightarrow> sorted (rev (map (\<lambda>i. uplift ! i) (at_k_order argsort uplift)))
          \<and> mset (at_k_order argsort uplift) = mset [0..<length uplift])"
  using mset_desc_score_indices [of uplift] sorted_rev_ranked_score [of uplift]
    desc_score_indices_ties [of uplift] at_k_order_descending [of uplift argsort]
  by blast

theorem ranking_descending_ties_reversed_witness:
  "argsort_result [3, 3, 1] (argsort_mergesort [3, 3, 1])
   \<and> sorted (rev (map (\<lambda>i. [3, 3, 1 :: real] ! i) (at_k_order argsort_mergesort [3, 3, 1])))
   \<and> filter (\<lambda>i. [3, 3, 1 :: real] ! i = 3) (desc_score_indices [3, 3, 1]) = [1, 0]"
proof -
  have a: "argsort_mergesort [3, 3, 1] = [2, 0, 1]" by code_simp
  have r: "argsort_result [3, 3, 1] (argsort_mergesort [3, 3, 1])"
    unfolding a by (simp add: argsort_result_def upt_rec)
  have f: "rev (filter (\<lambda>i. [3, 3, 1 :: real] ! i = 3) [0..<length [3, 3, 1 :: real]]) = [1, 0]"
    by (simp add: upt_rec)
  from ranking_descending_ties_reversed [of "[3, 3, 1]" argsort_mergesort] r f
  show ?thesis by simp
qed

text \<open>
  C4, as the specification has it, fails: two subjects of equal score are ranked in the reverse
  of their original order.
\<close>

theorem ranking_not_stable_counterexample:
  "desc_score_indices [1, 1] = [1, 0]"
  by code_simp

section \<open>Facts about the validation of uplift_at_k\<close>

lemma check_consistent_length3:
  "check_consistent_length [a, b, c] \<longleftrightarrow> a = b \<and> b = c"
  by (auto simp: check_consistent_length_def)

lemma length_np_unique_counts: "length (np_unique_counts t) = card (set t)"
  by (simp add: np_unique_counts_def length_remdups_card_conv)

lemma np_get_ok: "i < length a \<Longrightarrow> np_get a i = Inr (a ! i)"
  by (simp add: np_get_def)

lemma np_get_fails: "length a \<le> i \<Longrightarrow> np_get a i = Inl IndexError"
  by (simp add: np_get_def)

text \<open>
  C10.  When the three arrays have the same length, the averaging mode is one of the two that
  the function knows, and the treatment array holds fewer than two distinct values, then
  \<open>uplift_at_k\<close> ends in an index error, whatever \<open>k\<close> and whatever the mode: it reads the count of
  a second distinct treatment value before it looks at \<open>k\<close> or computes a score.
\<close>

theorem uplift_at_k_single_group_index_error:
  assumes "length y_true = length uplift"
    and "length treatment = length uplift"
    and "average = ''first'' \<or> average = ''group''"
    and "card (set treatment) < 2"
  shows "uplift_at_k argsort float_mul y_true uplift treatment k average = Inl IndexError"
proof -
  have c: "check_consistent_length [length y_true, length uplift, length treatment]"
    using assms(1,2) by (simp add: check_consistent_length3)
  have m: "List.member [''first'', ''group''] average"
    using assms(3) by auto
  have l: "length (np_unique_counts treatment) < 2"
    using assms(4) by (simp add: length_np_unique_counts)
  show ?thesis
  proof (cases "length (np_unique_counts treatment) = 0")
    case True
    then have "np_get (np_unique_counts treatment) 0 = Inl IndexError"
      by (simp add: np_get_fails)
    then show ?thesis
      unfolding uplift_at_k_def Let_def using c m by (simp only: bind_err_Inl if_True if_False not_True_eq_False)
  next
    case False
    then have g0: "np_get (np_unique_counts treatment) 0 = Inr (np_unique_counts treatment ! 0)"
      by (simp add: np_get_ok)
    from False l have "length (np_unique_counts treatment) \<le> 1" by simp
    then have g1: "np_get (np_unique_counts treatment) 1 = Inl IndexError"
      by (rule np_get_fails)
    show ?thesis
      unfolding uplift_at_k_def Let_def g0 g1 bind_err_Inr bind_err_Inl using c m by simp
  qed
qed

theorem uplift_at_k_single_group_index_error_witness:
  "length [1, 0 :: real] = length [0.9, 0.8 :: real]
   \<and> length [1, 1 :: int] = length [0.9, 0.8 :: real]
   \<and> card (set [1, 1 :: int]) < 2
   \<and> uplift_at_k argsort_mergesort (*) [1, 0] [0.9, 0.8] [1, 1] (KInt 1) ''first'' = Inl IndexError
   \<and> uplift_at_k argsort_mergesort (*) [1, 0] [0.9, 0.8] [1, 1] (KFloat 0.5) ''group'' = Inl IndexError"
  using uplift_at_k_single_group_index_error [where y_true = "[1, 0]" and uplift = "[0.9, 0.8]"
      and treatment = "[1, 1]" and average = "''first''" and argsort = argsort_mergesort
      and float_mul = "(*)" and k = "KInt 1"]
    uplift_at_k_single_group_index_error [where y_true = "[1, 0]" and uplift = "[0.9, 0.8]"
      and treatment = "[1, 1]" and average = "''group''" and argsort = argsort_mergesort
      and float_mul = "(*)" and k = "KFloat 0.5"]
  by simp

section \<open>The checks of k\<close>

lemma uplift_at_k_two_groups:
  assumes "length y_true = length uplift"
    and "length treatment = length uplift"
    and "average = ''first'' \<or> average = ''group''"
    and "2 \<le> card (set treatment)"
  shows "uplift_at_k argsort float_mul y_true uplift treatment k average =
     (if (k_kind k = CHR ''i'' \<and> (k_num k \<ge> real (length y_true) \<or> k_num k \<le> 0))
         \<or> (k_kind k = CHR ''f'' \<and> (k_num k \<le> 0 \<or> k_num k \<ge> 1))
      then Inl (ValueError KRange)
      else if \<not> List.member [CHR ''i'', CHR ''f''] (k_kind k) then Inl (ValueError KKind)
      else if average = ''first''
      then score_first (at_k_order argsort uplift) float_mul y_true treatment k
      else score_group (at_k_order argsort uplift) float_mul y_true treatment k
             (np_unique_counts treatment ! 0) (np_unique_counts treatment ! 1))"
proof -
  have c: "check_consistent_length [length y_true, length uplift, length treatment]"
    using assms(1,2) by (simp add: check_consistent_length3)
  have m: "List.member [''first'', ''group''] average"
    using assms(3) by auto
  have l: "2 \<le> length (np_unique_counts treatment)"
    using assms(4) by (simp add: length_np_unique_counts)
  then have l0: "0 < length (np_unique_counts treatment)"
    and l1: "1 < length (np_unique_counts treatment)" by linarith+
  have g0: "np_get (np_unique_counts treatment) 0 = Inr (np_unique_counts treatment ! 0)"
    using l0 by (rule np_get_ok)
  have g1: "np_get (np_unique_counts treatment) 1 = Inr (np_unique_counts treatment ! 1)"
    using l1 by (rule np_get_ok)
  show ?thesis
    unfolding uplift_at_k_def Let_def g0 g1 bind_err_Inr using c m by simp
qed

text \<open>
  C8.  With a treatment array that holds one value only the checks of \<open>k\<close> are not reached:
  for \<open>k = 2.0\<close>, which is not valid, the call ends in an index error, raised where the count
  of a second treatment value is read, and not in the range error.  The same call on a
  treatment array with both groups ends in the range error.
\<close>

theorem k_check_unreached_single_group:
  "uplift_at_k argsort float_mul [1, 0] [0.9, 0.8] [1, 1] (KFloat 2) ''first'' = Inl IndexError
   \<and> uplift_at_k argsort float_mul [1, 0] [0.9, 0.8] [1, 0] (KFloat 2) ''first''
        = Inl (ValueError KRange)"
  by (simp add: uplift_at_k_def check_consistent_length_def np_unique_counts_def np_get_def
      bind_err_def k_kind_def k_num_def)

section \<open>The whole population as the window\<close>

text \<open>
  C9, as the code has it.  On equal-length arrays with a binary treatment that contains both
  groups, in either averaging mode, \<open>k = 1.0\<close> is rejected by the range check: the call raises
  the range error and returns no score.
\<close>

theorem k_one_rejected:
  assumes "length y_true = length uplift"
    and "length treatment = length uplift"
    and "binary treatment"
    and "0 \<in> set treatment"
    and "1 \<in> set treatment"
    and "average = ''first'' \<or> average = ''group''"
  shows "uplift_at_k argsort float_mul y_true uplift treatment (KFloat 1) average
    = Inl (ValueError KRange)"
proof -
  have "set treatment \<subseteq> {0, 1}" using assms(3) by (auto simp: binary_def list_all_iff)
  with assms(4,5) have "set treatment = {0, 1}" by auto
  then have c: "2 \<le> card (set treatment)" by simp
  show ?thesis
    unfolding uplift_at_k_two_groups [OF assms(1,2,6) c] by (simp add: k_kind_def k_num_def)
qed

theorem k_one_rejected_witness:
  "length [1, 0, 1, 0 :: real] = length [0.9, 0.8, 0.7, 0.6 :: real]
   \<and> length [1, 0, 1, 1 :: int] = length [0.9, 0.8, 0.7, 0.6 :: real]
   \<and> binary [1, 0, 1, 1]
   \<and> 0 \<in> set [1, 0, 1, 1 :: int]
   \<and> 1 \<in> set [1, 0, 1, 1 :: int]
   \<and> uplift_at_k argsort_mergesort (*) [1, 0, 1, 0] [0.9, 0.8, 0.7, 0.6] [1, 0, 1, 1] (KFloat 1) ''first''
       = Inl (ValueError KRange)
   \<and> uplift_at_k argsort_mergesort (*) [1, 0, 1, 0] [0.9, 0.8, 0.7, 0.6] [1, 0, 1, 1] (KFloat 1) ''group''
       = Inl (ValueError KRange)"
proof -
  have h: "length [1, 0, 1, 0 :: real] = length [0.9, 0.8, 0.7, 0.6 :: real]"
    "length [1, 0, 1, 1 :: int] = length [0.9, 0.8, 0.7, 0.6 :: real]"
    "binary [1, 0, 1, 1]" "0 \<in> set [1, 0, 1, 1 :: int]" "1 \<in> set [1, 0, 1, 1 :: int]"
    by (simp_all add: binary_def)
  have f: "''first'' = ''first'' \<or> ''first'' = ''group''"
    and g: "''group'' = ''first'' \<or> ''group'' = ''group''" by simp_all
  from k_one_rejected [where argsort = argsort_mergesort and float_mul = "(*)", OF h f]
    k_one_rejected [where argsort = argsort_mergesort and float_mul = "(*)", OF h g] h
  show ?thesis by blast
qed

text \<open>
  C9, as the specification has it, fails: with \<open>k = 1.0\<close> the call raises the range error
  instead of returning a score.
\<close>

theorem whole_population_counterexample:
  "uplift_at_k argsort_mergesort (*) [1, 0] [0.9, 0.8] [1, 0] (KFloat 1) ''first''
     = Inl (ValueError KRange)"
  by code_simp

section \<open>The first point of a curve\<close>

lemma curves_start_at_origin:
  assumes "u \<noteq> []" and "length y = length u" and "length t = length u"
  shows "\<exists>c v. uplift_curve y u t = Inr (0 # c, Some 0 # v)"
    and "\<exists>c v. qini_curve y u t = Inr (0 # c, Some 0 # v)"
  unfolding uplift_curve_eq [OF assms] qini_curve_eq [OF assms] by blast+

text \<open>
  C2.  On the empty input neither curve has a first point: the cumulative sums are empty, the
  threshold index \<open>-1\<close> is out of their range, and both functions raise an index error before
  they reach the test that would prepend the point (0, 0).
\<close>

theorem curves_raise_on_empty_input:
  "uplift_curve [] [] [] = Inl IndexError \<and> qini_curve [] [] [] = Inl IndexError"
  by code_simp

end
